theory Spec2Isabelle
  imports Complex_Main
begin

section \<open>Data model (src/types/whiteboard.ts)\<close>

text \<open>
  A JavaScript \<open>number\<close> is modelled by its ideal value: coordinates and stroke widths
  are reals, timestamps (milliseconds, \<open>Date.now()\<close>) are integers. Rounding of
  floating-point arithmetic and the values NaN and Infinity are outside the model:
  the model computes what the source computes where the source's double arithmetic is
  exact, that is, on integer timestamps of magnitude below \<open>2^53\<close> (from there on
  \<open>t + 1\<close> rounds back to \<open>t\<close>) and on coordinates whose differences, squares and
  sums are representable, as the small integers of every concrete input below are.
  Lemmas that rest on \<open>t < t + 1\<close> or on a distance close to the threshold are
  statements about that range.
  Field names that would clash with each other or with a HOL constant carry a suffix.
\<close>

record Point =
  x_p :: real
  y_p :: real

datatype ActionType = Draw | Erase | Clear

record DrawingAction =
  id_a :: string
  type_a :: ActionType
  points :: "Point list"
  color_a :: string
  strokeWidth :: real
  timestamp :: int
  userId :: string

record Collaborator =
  id_c :: string
  name_c :: string
  color_c :: string
  cursor :: "Point option"
  isActive :: bool
  lastSeen :: int

text \<open>
  The field \<open>actions\<close> of a \<open>WhiteboardState\<close> object holds an array. The type
  parameter says how the array is held: by value (\<open>DrawingAction list\<close>) in the
  model of one manager on its own, by reference (an address of the store of arrays)
  in the model with aliasing further down.
\<close>

record 'acts WhiteboardState =
  id_w :: string
  name_w :: string
  actions :: 'acts
  lastModified :: int
  createdBy :: string
  collaborators :: "Collaborator list"

type_synonym Document = "DrawingAction list WhiteboardState"

text \<open>The object \<open>addAction\<close> returns; its last two fields are optional in the source.\<close>

record AddResult =
  success :: bool
  conflict :: "bool option"
  resolvedAction :: "DrawingAction option"

record 'acts Snapshot =
  state_s :: "'acts WhiteboardState"
  timestamp_s :: int

section \<open>CollaborationManager (src/lib/collaboration.ts), one manager on its own\<close>

text \<open>
  The manager's only field that its methods read or write is \<open>whiteboardState\<close>
  (\<open>pendingActions\<close>, \<open>actionQueue\<close> and \<open>isProcessing\<close> are never used), so a
  method is a function from the document before the call to the document after it,
  paired with the returned value where there is one.
\<close>

definition timeWindow :: int where
  "timeWindow = 5000"

definition threshold :: real where
  "threshold = 50"

definition distance :: "Point \<Rightarrow> Point \<Rightarrow> real" where
  "distance point1 point2 =
     sqrt ((x_p point1 - x_p point2)\<^sup>2 + (y_p point1 - y_p point2)\<^sup>2)"

definition near :: "Point \<Rightarrow> Point \<Rightarrow> bool" where
  "near point1 point2 \<longleftrightarrow> distance point1 point2 < threshold"

text \<open>The two nested loops of \<open>hasSpatialConflict\<close>, each leaving at the first hit.\<close>

fun nearAny :: "Point \<Rightarrow> Point list \<Rightarrow> bool" where
  "nearAny point1 [] = False"
| "nearAny point1 (point2 # rest) =
     (if near point1 point2 then True else nearAny point1 rest)"

fun anyNear :: "Point list \<Rightarrow> Point list \<Rightarrow> bool" where
  "anyNear [] points2 = False"
| "anyNear (point1 # rest) points2 =
     (if nearAny point1 points2 then True else anyNear rest points2)"

definition hasSpatialConflict :: "DrawingAction \<Rightarrow> DrawingAction \<Rightarrow> bool" where
  "hasSpatialConflict action1 action2 =
     (if length (points action1) = 0 \<or> length (points action2) = 0 then False
      else anyNear (points action1) (points action2))"

fun findConflictsLoop :: "DrawingAction \<Rightarrow> DrawingAction list \<Rightarrow> DrawingAction list" where
  "findConflictsLoop newAction [] = []"
| "findConflictsLoop newAction (action # rest) =
     (if \<bar>timestamp action - timestamp newAction\<bar> < timeWindow
      then (if hasSpatialConflict newAction action
            then action # findConflictsLoop newAction rest
            else findConflictsLoop newAction rest)
      else findConflictsLoop newAction rest)"

definition findConflicts :: "Document \<Rightarrow> DrawingAction \<Rightarrow> DrawingAction list" where
  "findConflicts s newAction = findConflictsLoop newAction (actions s)"

text \<open>
  The loop of \<open>resolveConflicts\<close>: every branch assigns
  \<open>Math.max(conflict.timestamp + 1, newAction.timestamp)\<close>, computed from the
  timestamp of \<open>newAction\<close>, to the copy \<open>resolved\<close>.
\<close>

fun resolveLoop :: "DrawingAction \<Rightarrow> DrawingAction list \<Rightarrow> DrawingAction \<Rightarrow> DrawingAction" where
  "resolveLoop newAction [] resolved = resolved"
| "resolveLoop newAction (c # rest) resolved =
     resolveLoop newAction rest
       (if type_a c = Clear \<and> type_a newAction \<noteq> Clear
        then resolved\<lparr>timestamp := max (timestamp c + 1) (timestamp newAction)\<rparr>
        else if type_a newAction = Erase \<and> type_a c = Draw
        then resolved\<lparr>timestamp := max (timestamp c + 1) (timestamp newAction)\<rparr>
        else if type_a newAction = Draw \<and> type_a c = Erase
        then resolved\<lparr>timestamp := max (timestamp c + 1) (timestamp newAction)\<rparr>
        else resolved\<lparr>timestamp := max (timestamp c + 1) (timestamp newAction)\<rparr>)"

definition resolveConflicts :: "DrawingAction \<Rightarrow> DrawingAction list \<Rightarrow> DrawingAction" where
  "resolveConflicts newAction conflicts = resolveLoop newAction conflicts newAction"

text \<open>
  \<open>Array.prototype.sort\<close> with the comparator \<open>a.timestamp - b.timestamp\<close> is a
  stable sort by timestamp, as \<open>sort_key\<close> is.
\<close>

definition sortByTimestamp :: "DrawingAction list \<Rightarrow> DrawingAction list" where
  "sortByTimestamp xs = sort_key timestamp xs"

text \<open>The document invariant of the specification: ascending by timestamp.\<close>

definition sortedByTimestamp :: "DrawingAction list \<Rightarrow> bool" where
  "sortedByTimestamp xs = sorted (map timestamp xs)"

definition applyAction :: "DrawingAction \<Rightarrow> Document \<Rightarrow> Document" where
  "applyAction action s =
     s\<lparr>actions := sortByTimestamp (actions s @ [action]),
       lastModified := timestamp action\<rparr>"

definition addAction :: "DrawingAction \<Rightarrow> Document \<Rightarrow> AddResult \<times> Document" where
  "addAction action s =
     (let conflicts = findConflicts s action in
      if length conflicts > 0
      then (let resolved = resolveConflicts action conflicts in
            (\<lparr>success = True, conflict = Some True, resolvedAction = Some resolved\<rparr>,
             applyAction resolved s))
      else (\<lparr>success = True, conflict = Some False, resolvedAction = None\<rparr>,
            applyAction action s))"

text \<open>
  Not a function of the source: the operation that \<open>addAction\<close> hands to
  \<open>applyAction\<close>, the resolved copy when there are conflicts and the candidate
  itself otherwise.
\<close>

definition storedAction :: "DrawingAction \<Rightarrow> Document \<Rightarrow> DrawingAction" where
  "storedAction action s =
     (let conflicts = findConflicts s action in
      if length conflicts > 0 then resolveConflicts action conflicts else action)"

definition getState :: "Document \<Rightarrow> Document" where
  "getState s = s"

definition updateCollaborators :: "Collaborator list \<Rightarrow> Document \<Rightarrow> Document" where
  "updateCollaborators cs s = s\<lparr>collaborators := cs\<rparr>"

definition getActionsSince :: "int \<Rightarrow> Document \<Rightarrow> DrawingAction list" where
  "getActionsSince t s = filter (\<lambda>action. timestamp action > t) (actions s)"

definition optimizedList :: "DrawingAction list \<Rightarrow> DrawingAction list" where
  "optimizedList acts =
     (let clearActions = filter (\<lambda>action. type_a action = Clear) acts;
          optimized = filter (\<lambda>action. type_a action \<noteq> Clear) acts
      in if length clearActions > 0
         then (let latestClear = clearActions ! (length clearActions - 1);
                   actionsAfterClear =
                     filter (\<lambda>action. timestamp action > timestamp latestClear) optimized
               in latestClear # actionsAfterClear)
         else optimized)"

definition optimizeActions :: "Document \<Rightarrow> Document" where
  "optimizeActions s = s\<lparr>actions := optimizedList (actions s)\<rparr>"

text \<open>\<open>Array.prototype.findIndex\<close>: the first index whose element passes, or -1.\<close>

fun findIndex :: "('a \<Rightarrow> bool) \<Rightarrow> 'a list \<Rightarrow> int" where
  "findIndex P [] = -1"
| "findIndex P (x # xs) =
     (if P x then 0 else (let r = findIndex P xs in if r < 0 then -1 else r + 1))"

definition uniqueActions :: "DrawingAction list \<Rightarrow> DrawingAction list" where
  "uniqueActions allActions =
     map snd (filter (\<lambda>(index, action).
                 int index = findIndex (\<lambda>a. id_a a = id_a action) allActions)
              (enumerate 0 allActions))"

text \<open>\<open>Date.now()\<close> is the parameter \<open>now\<close>.\<close>

definition mergedList :: "DrawingAction list \<Rightarrow> DrawingAction list \<Rightarrow> DrawingAction list" where
  "mergedList current incoming = sortByTimestamp (uniqueActions (current @ incoming))"

definition mergeActions :: "int \<Rightarrow> DrawingAction list \<Rightarrow> Document \<Rightarrow> Document" where
  "mergeActions now incoming s =
     s\<lparr>actions := mergedList (actions s) incoming, lastModified := now\<rparr>"

definition createSnapshot :: "int \<Rightarrow> Document \<Rightarrow> DrawingAction list Snapshot" where
  "createSnapshot now s = \<lparr>state_s = s, timestamp_s = now\<rparr>"

definition restoreFromSnapshot :: "DrawingAction list Snapshot \<Rightarrow> Document \<Rightarrow> Document" where
  "restoreFromSnapshot snapshot s = state_s snapshot"

section \<open>Sequences of mutating calls\<close>

datatype Call =
  AddAction DrawingAction
| MergeActions int "DrawingAction list"
| OptimizeActions
| UpdateCollaborators "Collaborator list"
| RestoreFromSnapshot "DrawingAction list Snapshot"

fun exec :: "Call \<Rightarrow> Document \<Rightarrow> Document" where
  "exec (AddAction action) s = snd (addAction action s)"
| "exec (MergeActions now incoming) s = mergeActions now incoming s"
| "exec OptimizeActions s = optimizeActions s"
| "exec (UpdateCollaborators cs) s = updateCollaborators cs s"
| "exec (RestoreFromSnapshot snapshot) s = restoreFromSnapshot snapshot s"

fun run :: "Call list \<Rightarrow> Document \<Rightarrow> Document" where
  "run [] s = s"
| "run (c # cs) s = run cs (exec c s)"

section \<open>The manager with its arrays in a store\<close>

text \<open>
  \<open>{ ...this.whiteboardState }\<close> makes a new object whose fields hold the same values,
  so the new object's \<open>actions\<close> is the same array as the manager's. Arrays live in a
  store, addressed by references; a \<open>WhiteboardState\<close> object is a record whose
  \<open>actions\<close> field is a reference. \<open>push\<close> and \<open>sort\<close> write the array in place;
  \<open>filter\<close>, a spread and an array literal make a new array at a fresh reference.
\<close>

type_synonym ref = nat

record Store =
  cells :: "ref \<Rightarrow> DrawingAction list"
  nextRef :: ref

type_synonym Obj = "ref WhiteboardState"

definition newArray :: "DrawingAction list \<Rightarrow> Store \<Rightarrow> ref \<times> Store" where
  "newArray xs h = (nextRef h, h\<lparr>cells := (cells h)(nextRef h := xs), nextRef := nextRef h + 1\<rparr>)"

text \<open>What an object denotes in a store: its fields, with the array read from the store.\<close>

definition deref :: "Store \<Rightarrow> Obj \<Rightarrow> Document" where
  "deref h obj =
     \<lparr>id_w = id_w obj, name_w = name_w obj, actions = cells h (actions obj),
      lastModified = lastModified obj, createdBy = createdBy obj,
      collaborators = collaborators obj\<rparr>"

definition applyAction_h :: "DrawingAction \<Rightarrow> Obj \<times> Store \<Rightarrow> Obj \<times> Store" where
  "applyAction_h action m =
     (case m of (obj, h) \<Rightarrow>
        (obj\<lparr>lastModified := timestamp action\<rparr>,
         h\<lparr>cells := (cells h)(actions obj :=
                sortByTimestamp (cells h (actions obj) @ [action]))\<rparr>))"

definition addAction_h :: "DrawingAction \<Rightarrow> Obj \<times> Store \<Rightarrow> AddResult \<times> Obj \<times> Store" where
  "addAction_h action m =
     (case m of (obj, h) \<Rightarrow>
        (let conflicts = findConflictsLoop action (cells h (actions obj)) in
         if length conflicts > 0
         then (let resolved = resolveConflicts action conflicts in
               (\<lparr>success = True, conflict = Some True, resolvedAction = Some resolved\<rparr>,
                applyAction_h resolved m))
         else (\<lparr>success = True, conflict = Some False, resolvedAction = None\<rparr>,
               applyAction_h action m)))"

definition getState_h :: "Obj \<times> Store \<Rightarrow> Obj" where
  "getState_h m = fst m"

definition optimizeActions_h :: "Obj \<times> Store \<Rightarrow> Obj \<times> Store" where
  "optimizeActions_h m =
     (case m of (obj, h) \<Rightarrow>
        (case newArray (optimizedList (cells h (actions obj))) h of
           (r, h') \<Rightarrow> (obj\<lparr>actions := r\<rparr>, h')))"

definition mergeActions_h :: "int \<Rightarrow> ref \<Rightarrow> Obj \<times> Store \<Rightarrow> Obj \<times> Store" where
  "mergeActions_h now incoming m =
     (case m of (obj, h) \<Rightarrow>
        (case newArray (mergedList (cells h (actions obj)) (cells h incoming)) h of
           (r, h') \<Rightarrow> (obj\<lparr>actions := r, lastModified := now\<rparr>, h')))"

definition createSnapshot_h :: "int \<Rightarrow> Obj \<times> Store \<Rightarrow> ref Snapshot" where
  "createSnapshot_h now m = \<lparr>state_s = fst m, timestamp_s = now\<rparr>"

definition restoreFromSnapshot_h :: "ref Snapshot \<Rightarrow> Obj \<times> Store \<Rightarrow> Obj \<times> Store" where
  "restoreFromSnapshot_h snapshot m = (state_s snapshot, snd m)"

section \<open>Deduplication as the specification words it\<close>

text \<open>
  The specification's merge: walk the concatenated sequence and keep an operation when
  no operation with its id has been met before (\<open>seen\<close> holds the ids met so far).
  The source's \<open>uniqueActions\<close> is compared with it below.
\<close>

fun keepFirstById :: "string set \<Rightarrow> DrawingAction list \<Rightarrow> DrawingAction list" where
  "keepFirstById seen [] = []"
| "keepFirstById seen (a # rest) =
     (if id_a a \<in> seen then keepFirstById seen rest
      else a # keepFirstById (insert (id_a a) seen) rest)"

section \<open>Concrete inputs\<close>

definition pt :: "real \<Rightarrow> real \<Rightarrow> Point" where
  "pt a b = \<lparr>x_p = a, y_p = b\<rparr>"

definition mkAction :: "string \<Rightarrow> ActionType \<Rightarrow> Point list \<Rightarrow> int \<Rightarrow> DrawingAction" where
  "mkAction i t ps ts =
     \<lparr>id_a = i, type_a = t, points = ps, color_a = ''#000000'', strokeWidth = 2,
      timestamp = ts, userId = ''user1''\<rparr>"

definition document :: "DrawingAction list \<Rightarrow> Document" where
  "document xs =
     \<lparr>id_w = ''test-whiteboard'', name_w = ''Test Whiteboard'', actions = xs,
      lastModified = 0, createdBy = ''user1'', collaborators = []\<rparr>"

definition object :: "ref \<Rightarrow> Obj" where
  "object r =
     \<lparr>id_w = ''test-whiteboard'', name_w = ''Test Whiteboard'', actions = r,
      lastModified = 0, createdBy = ''user1'', collaborators = []\<rparr>"

definition store :: "DrawingAction list list \<Rightarrow> Store" where
  "store arrays =
     \<lparr>cells = (\<lambda>r. if r < length arrays then arrays ! r else []),
      nextRef = length arrays\<rparr>"

section \<open>Conflict detection and resolution\<close>

lemma near_code [code]:
  "near p q \<longleftrightarrow> (x_p p - x_p q)\<^sup>2 + (y_p p - y_p q)\<^sup>2 < 2500"
proof -
  have "sqrt v < 50 \<longleftrightarrow> v < 2500" for v :: real
    using real_sqrt_less_iff [of v 2500] by simp
  then show ?thesis
    by (simp add: near_def distance_def threshold_def)
qed

lemma nearAny_iff: "nearAny p qs \<longleftrightarrow> (\<exists>q\<in>set qs. near p q)"
  by (induction qs) auto

lemma anyNear_iff: "anyNear ps qs \<longleftrightarrow> (\<exists>p\<in>set ps. \<exists>q\<in>set qs. near p q)"
  by (induction ps) (auto simp: nearAny_iff)

lemma hasSpatialConflict_iff:
  "hasSpatialConflict a b \<longleftrightarrow> (\<exists>p\<in>set (points a). \<exists>q\<in>set (points b). distance p q < 50)"
  by (auto simp: hasSpatialConflict_def anyNear_iff near_def threshold_def)

lemma hasSpatialConflict_empty:
  "points a = [] \<or> points b = [] \<Longrightarrow> \<not> hasSpatialConflict a b"
  by (auto simp: hasSpatialConflict_def)

lemma findConflictsLoop_filter:
  "findConflictsLoop n xs =
     filter (\<lambda>e. \<bar>timestamp e - timestamp n\<bar> < 5000 \<and> hasSpatialConflict n e) xs"
  by (induction xs) (auto simp: timeWindow_def)

lemma findConflicts_iff:
  "e \<in> set (findConflicts s n) \<longleftrightarrow>
     e \<in> set (actions s) \<and> \<bar>timestamp e - timestamp n\<bar> < 5000 \<and>
     (\<exists>p\<in>set (points n). \<exists>q\<in>set (points e). distance p q < 50)"
  by (auto simp: findConflicts_def findConflictsLoop_filter hasSpatialConflict_iff)

lemma resolveLoop_last:
  "resolveLoop n cs r =
     (if cs = [] then r else r\<lparr>timestamp := max (timestamp (last cs) + 1) (timestamp n)\<rparr>)"
  by (induction cs arbitrary: r) auto

lemma resolveConflicts_last:
  "cs \<noteq> [] \<Longrightarrow>
   resolveConflicts n cs = n\<lparr>timestamp := max (timestamp (last cs) + 1) (timestamp n)\<rparr>"
  by (simp add: resolveConflicts_def resolveLoop_last)

lemma storedAction_eq:
  "storedAction a s =
     (if findConflicts s a = [] then a
      else a\<lparr>timestamp := max (timestamp (last (findConflicts s a)) + 1) (timestamp a)\<rparr>)"
  by (simp add: storedAction_def Let_def resolveConflicts_last)

lemma addAction_state:
  "snd (addAction a s) = applyAction (storedAction a s) s"
  by (simp add: addAction_def storedAction_def Let_def)

lemma addAction_actions:
  "actions (snd (addAction a s)) = sortByTimestamp (actions s @ [storedAction a s])"
  by (simp add: addAction_state applyAction_def)

lemma addAction_lastModified:
  "lastModified (snd (addAction a s)) = timestamp (storedAction a s)"
  by (simp add: addAction_state applyAction_def)

lemma sortedByTimestamp_sort: "sortedByTimestamp (sortByTimestamp xs)"
  by (simp add: sortedByTimestamp_def sortByTimestamp_def)

lemma sortedByTimestamp_filter:
  "sortedByTimestamp xs \<Longrightarrow> sortedByTimestamp (filter P xs)"
  unfolding sortedByTimestamp_def by (rule sorted_filter)

lemma sortedByTimestamp_last:
  "sortedByTimestamp xs \<Longrightarrow> e \<in> set xs \<Longrightarrow> timestamp e \<le> timestamp (last xs)"
proof (induction xs)
  case Nil
  then show ?case by simp
next
  case (Cons x xs)
  then show ?case
    by (cases "xs = []") (auto simp: sortedByTimestamp_def)
qed

lemma conflicts_sorted:
  "sortedByTimestamp (actions s) \<Longrightarrow> sortedByTimestamp (findConflicts s n)"
  by (simp add: findConflicts_def findConflictsLoop_filter sortedByTimestamp_filter)

lemma stored_after_conflicts:
  assumes "sortedByTimestamp (actions s)" and "e \<in> set (findConflicts s a)"
  shows "timestamp e < timestamp (storedAction a s)"
proof -
  from assms have "timestamp e \<le> timestamp (last (findConflicts s a))"
    by (intro sortedByTimestamp_last conflicts_sorted)
  moreover from assms(2) have "findConflicts s a \<noteq> []" by auto
  ultimately show ?thesis by (simp add: storedAction_eq)
qed

lemma stored_timestamp_Max:
  assumes "sortedByTimestamp (actions s)"
  shows "timestamp (storedAction a s) =
           Max (insert (timestamp a) ((\<lambda>e. timestamp e + 1) ` set (findConflicts s a)))"
proof (cases "findConflicts s a = []")
  case True
  then show ?thesis by (simp add: storedAction_eq)
next
  case False
  let ?cs = "findConflicts s a"
  let ?S = "insert (timestamp a) ((\<lambda>e. timestamp e + 1) ` set ?cs)"
  have le: "timestamp e \<le> timestamp (last ?cs)" if "e \<in> set ?cs" for e
    using that assms by (intro sortedByTimestamp_last conflicts_sorted)
  have "Max ?S = max (timestamp (last ?cs) + 1) (timestamp a)"
  proof (rule Max_eqI)
    show "finite ?S" by simp
    show "y \<le> max (timestamp (last ?cs) + 1) (timestamp a)" if "y \<in> ?S" for y
      using that le by (fastforce simp: max_def)
    show "max (timestamp (last ?cs) + 1) (timestamp a) \<in> ?S"
      using False last_in_set [of ?cs] by (auto simp: max_def)
  qed
  with False show ?thesis by (simp add: storedAction_eq)
qed


text \<open>The definitions a concrete call of \<open>addAction\<close> is evaluated with.\<close>

lemmas model_defs =
  pt_def mkAction_def document_def findConflicts_def hasSpatialConflict_def near_code
  timeWindow_def resolveConflicts_def storedAction_def addAction_def applyAction_def
  sortByTimestamp_def sortedByTimestamp_def Let_def

section \<open>Sortedness of the operation list\<close>

lemma optimizedList_eq:
  "optimizedList xs =
     (if filter (\<lambda>a. type_a a = Clear) xs = [] then xs
      else last (filter (\<lambda>a. type_a a = Clear) xs) #
           filter (\<lambda>a. timestamp a > timestamp (last (filter (\<lambda>a. type_a a = Clear) xs)))
             (filter (\<lambda>a. type_a a \<noteq> Clear) xs))"
proof (cases "filter (\<lambda>a. type_a a = Clear) xs = []")
  case True
  then have "filter (\<lambda>a. type_a a \<noteq> Clear) xs = xs"
    by (simp add: filter_empty_conv)
  with True show ?thesis by (simp add: optimizedList_def)
next
  case False
  then show ?thesis
    by (simp add: optimizedList_def Let_def last_conv_nth)
qed

lemma optimizedList_sorted:
  assumes "sortedByTimestamp xs"
  shows "sortedByTimestamp (optimizedList xs)"
proof (cases "filter (\<lambda>a. type_a a = Clear) xs = []")
  case True
  with assms show ?thesis by (simp add: optimizedList_eq)
next
  case False
  let ?c = "last (filter (\<lambda>a. type_a a = Clear) xs)"
  let ?rest = "filter (\<lambda>a. timestamp a > timestamp ?c) (filter (\<lambda>a. type_a a \<noteq> Clear) xs)"
  have "sortedByTimestamp ?rest"
    using assms by (intro sortedByTimestamp_filter)
  moreover have "\<forall>e\<in>set ?rest. timestamp ?c \<le> timestamp e" by auto
  ultimately have "sortedByTimestamp (?c # ?rest)"
    by (simp add: sortedByTimestamp_def)
  with False show ?thesis by (simp add: optimizedList_eq)
qed

lemma mergedList_sorted: "sortedByTimestamp (mergedList xs ys)"
  by (simp add: mergedList_def sortedByTimestamp_sort)

lemma addAction_sorted: "sortedByTimestamp (actions (snd (addAction a s)))"
  by (simp add: addAction_actions sortedByTimestamp_sort)

lemma storedAction_in_store:
  "storedAction a s \<in> set (actions (snd (addAction a s)))"
  by (simp add: addAction_actions sortByTimestamp_def)

lemma addAction_conflict_flag:
  "conflict (fst (addAction a s)) = Some (findConflicts s a \<noteq> [])"
  by (simp add: addAction_def Let_def)

section \<open>Compaction and merge\<close>

lemma optimizedList_idem: "optimizedList (optimizedList xs) = optimizedList xs"
proof (cases "filter (\<lambda>a. type_a a = Clear) xs = []")
  case True
  then show ?thesis by (simp add: optimizedList_eq)
next
  case False
  let ?c = "last (filter (\<lambda>a. type_a a = Clear) xs)"
  let ?rest = "filter (\<lambda>a. timestamp a > timestamp ?c) (filter (\<lambda>a. type_a a \<noteq> Clear) xs)"
  have eq: "optimizedList xs = ?c # ?rest"
    using False by (simp add: optimizedList_eq)
  have "?c \<in> set (filter (\<lambda>a. type_a a = Clear) xs)"
    using False by (rule last_in_set)
  then have c: "type_a ?c = Clear" by simp
  have clears: "filter (\<lambda>a. type_a a = Clear) (?c # ?rest) = [?c]"
    using c by (simp add: filter_empty_conv)
  have others: "filter (\<lambda>a. type_a a \<noteq> Clear) (?c # ?rest) = ?rest"
    using c by (auto intro: filter_cong)
  have "optimizedList (?c # ?rest) = ?c # ?rest"
    unfolding optimizedList_eq [of "?c # ?rest"] clears others by simp
  then show ?thesis by (simp only: eq)
qed

lemma last_clear_greatest:
  assumes "sortedByTimestamp xs" and "c \<in> set (filter P xs)"
  shows "timestamp c \<le> timestamp (last (filter P xs))"
  using assms by (intro sortedByTimestamp_last sortedByTimestamp_filter)

lemma findIndex_lower: "- 1 \<le> findIndex P xs"
  by (induction xs) (auto simp: Let_def)

lemma findIndex_first:
  "findIndex P (pre @ a # xs) = int (length pre) \<longleftrightarrow> P a \<and> (\<forall>b\<in>set pre. \<not> P b)"
proof (induction pre)
  case Nil
  show ?case using findIndex_lower [of P xs] by (auto simp: Let_def)
next
  case (Cons b pre)
  then show ?case by (auto simp: Let_def)
qed

lemma uniqueActions_from:
  "map snd (filter (\<lambda>(index, action).
       int index = findIndex (\<lambda>a. id_a a = id_a action) (pre @ xs))
     (enumerate (length pre) xs))
   = keepFirstById (id_a ` set pre) xs"
proof (induction xs arbitrary: pre)
  case Nil
  show ?case by simp
next
  case (Cons a rest)
  have hit: "findIndex (\<lambda>b. id_a b = id_a a) (pre @ a # rest) = int (length pre)
      \<longleftrightarrow> id_a a \<notin> id_a ` set pre"
    unfolding findIndex_first by (metis (no_types, lifting) image_iff)
  have ih: "map snd (filter (\<lambda>(index, action).
       int index = findIndex (\<lambda>a. id_a a = id_a action) (pre @ a # rest))
     (enumerate (Suc (length pre)) rest))
   = keepFirstById (id_a ` set (pre @ [a])) rest"
    using Cons.IH [of "pre @ [a]"] by simp
  show ?case
  proof (cases "id_a a \<in> id_a ` set pre")
    case True
    then have "id_a ` set (pre @ [a]) = id_a ` set pre" by auto
    with True hit ih show ?thesis by simp
  next
    case False
    have "id_a ` set (pre @ [a]) = insert (id_a a) (id_a ` set pre)" by auto
    with False hit ih show ?thesis by simp
  qed
qed

lemma uniqueActions_keepFirst: "uniqueActions xs = keepFirstById {} xs"
  using uniqueActions_from [of "[]" xs] by (simp add: uniqueActions_def)

lemma keepFirstById_append:
  "keepFirstById seen (xs @ ys) =
     keepFirstById seen xs @ keepFirstById (seen \<union> id_a ` set xs) ys"
  by (induction xs arbitrary: seen) (auto simp: insert_absorb)

lemma keepFirstById_subset: "set (keepFirstById seen xs) \<subseteq> set xs"
  by (induction xs arbitrary: seen) auto

lemma keepFirstById_ids: "id_a ` set (keepFirstById seen xs) = id_a ` set xs - seen"
  by (induction xs arbitrary: seen) auto

lemma keepFirstById_distinct: "distinct (map id_a (keepFirstById seen xs))"
proof (induction xs arbitrary: seen)
  case Nil
  show ?case by simp
next
  case (Cons a rest)
  have "id_a a \<notin> id_a ` set (keepFirstById (insert (id_a a) seen) rest)"
    by (simp add: keepFirstById_ids)
  with Cons show ?case by simp
qed

lemma distinct_ids_sort:
  "distinct (map id_a xs) \<Longrightarrow> distinct (map id_a (sortByTimestamp xs))"
  by (simp add: distinct_map sortByTimestamp_def)

lemma set_sortByTimestamp: "set (sortByTimestamp xs) = set xs"
  by (simp add: sortByTimestamp_def)

lemma mergedList_keepFirst:
  "mergedList cur inc = sortByTimestamp (keepFirstById {} (cur @ inc))"
  by (simp add: mergedList_def uniqueActions_keepFirst)

lemma storedAction_ge: "timestamp a \<le> timestamp (storedAction a s)"
  by (simp add: storedAction_eq)

section \<open>The store model against the model of one manager\<close>

text \<open>
  Read through \<open>deref\<close>, every method on the store model does to the manager's own
  document what the method on the document does; and \<open>optimizeActions\<close> and
  \<open>mergeActions\<close> leave every array that existed before the call as it was, while
  \<open>addAction\<close> writes the manager's array and no other.
\<close>

lemma optimizeActions_h_frame:
  "r < nextRef h \<Longrightarrow> cells (snd (optimizeActions_h (obj, h))) r = cells h r"
  by (simp add: optimizeActions_h_def newArray_def)

lemma mergeActions_h_frame:
  "r < nextRef h \<Longrightarrow> cells (snd (mergeActions_h now incoming (obj, h))) r = cells h r"
  by (simp add: mergeActions_h_def newArray_def)

lemma addAction_h_frame:
  "r \<noteq> actions obj \<Longrightarrow> cells (snd (snd (addAction_h a (obj, h)))) r = cells h r"
  by (simp add: addAction_h_def applyAction_h_def Let_def)

lemma deref_addAction_h:
  "(case addAction_h a (obj, h) of (res, obj', h') \<Rightarrow> (res, deref h' obj'))
     = addAction a (deref h obj)"
  by (simp add: addAction_h_def addAction_def applyAction_h_def applyAction_def deref_def
      findConflicts_def Let_def)

lemma deref_optimizeActions_h:
  "(case optimizeActions_h (obj, h) of (obj', h') \<Rightarrow> deref h' obj')
     = optimizeActions (deref h obj)"
  by (simp add: optimizeActions_h_def optimizeActions_def newArray_def deref_def)

lemma deref_mergeActions_h:
  "(case mergeActions_h now incoming (obj, h) of (obj', h') \<Rightarrow> deref h' obj')
     = mergeActions now (cells h incoming) (deref h obj)"
  by (simp add: mergeActions_h_def mergeActions_def newArray_def deref_def)

lemma deref_restoreFromSnapshot_h:
  "(case restoreFromSnapshot_h snapshot (obj, h) of (obj', h') \<Rightarrow> deref h' obj')
     = restoreFromSnapshot \<lparr>state_s = deref h (state_s snapshot), timestamp_s = timestamp_s snapshot\<rparr>
         (deref h obj)"
  by (simp add: restoreFromSnapshot_h_def restoreFromSnapshot_def)

section \<open>The claims\<close>

text \<open>
  C1 (the code differs from the claim on a store that is not sorted). The claim: the
  stored operation's timestamp is the maximum of the candidate's timestamp and of
  \<open>e.timestamp + 1\<close> over all conflicting operations \<open>e\<close>. \<open>resolveConflicts\<close>
  overwrites the resolved timestamp at every conflict with a value computed from the
  candidate's original timestamp, so the last conflict in store order decides. On the
  store \<open>[e1 at 2000, e2 at 1000]\<close> (as a constructor argument or a restored snapshot
  may hold it) and the candidate at 900, all three at the point (10, 10), both
  operations conflict, the claim's maximum is 2001, and the candidate is stored with
  timestamp 1001, before \<open>e1\<close>.
\<close>

theorem addAction_unsorted_store_last_conflict_wins:
  "findConflicts (document [mkAction ''e1'' Draw [pt 10 10] 2000, mkAction ''e2'' Draw [pt 10 10] 1000])
       (mkAction ''c'' Draw [pt 10 10] 900)
     = [mkAction ''e1'' Draw [pt 10 10] 2000, mkAction ''e2'' Draw [pt 10 10] 1000]
   \<and> max (timestamp (mkAction ''c'' Draw [pt 10 10] 900))
         (max (timestamp (mkAction ''e1'' Draw [pt 10 10] 2000) + 1)
              (timestamp (mkAction ''e2'' Draw [pt 10 10] 1000) + 1)) = 2001
   \<and> timestamp (storedAction (mkAction ''c'' Draw [pt 10 10] 900)
        (document [mkAction ''e1'' Draw [pt 10 10] 2000, mkAction ''e2'' Draw [pt 10 10] 1000])) = 1001
   \<and> actions (snd (addAction (mkAction ''c'' Draw [pt 10 10] 900)
        (document [mkAction ''e1'' Draw [pt 10 10] 2000, mkAction ''e2'' Draw [pt 10 10] 1000])))
     = [mkAction ''e2'' Draw [pt 10 10] 1000, mkAction ''c'' Draw [pt 10 10] 1001,
        mkAction ''e1'' Draw [pt 10 10] 2000]"
  by (simp add: model_defs)

text \<open>
  C2 (the code differs from the claim). The claim: a non-Clear candidate within 5000 of
  an existing Clear is stored at \<open>max (e.timestamp + 1) candidate.timestamp\<close>, never
  before the Clear. The first branch of \<open>resolveConflicts\<close> and its comment say the
  same, but only operations that \<open>findConflicts\<close> returns reach that branch, and
  \<open>hasSpatialConflict\<close> returns false for an operation without points, as every
  Clear the repository builds is. A Clear at 2000 is added to the empty document, then
  a draw at 1000 near (10, 10): the draw has no conflicts, keeps timestamp 1000 where
  the claim says 2001, and is stored before the Clear.
\<close>

theorem addAction_ignores_clear_without_points:
  "actions (snd (addAction (mkAction ''clear1'' Clear [] 2000) (document [])))
     = [mkAction ''clear1'' Clear [] 2000]
   \<and> type_a (mkAction ''clear1'' Clear [] 2000) = Clear
   \<and> type_a (mkAction ''d'' Draw [pt 10 10] 1000) \<noteq> Clear
   \<and> \<bar>timestamp (mkAction ''clear1'' Clear [] 2000)
        - timestamp (mkAction ''d'' Draw [pt 10 10] 1000)\<bar> < 5000
   \<and> max (timestamp (mkAction ''clear1'' Clear [] 2000) + 1)
          (timestamp (mkAction ''d'' Draw [pt 10 10] 1000)) = 2001
   \<and> findConflicts (snd (addAction (mkAction ''clear1'' Clear [] 2000) (document [])))
        (mkAction ''d'' Draw [pt 10 10] 1000) = []
   \<and> conflict (fst (addAction (mkAction ''d'' Draw [pt 10 10] 1000)
        (snd (addAction (mkAction ''clear1'' Clear [] 2000) (document []))))) = Some False
   \<and> timestamp (storedAction (mkAction ''d'' Draw [pt 10 10] 1000)
        (snd (addAction (mkAction ''clear1'' Clear [] 2000) (document [])))) = 1000
   \<and> actions (snd (addAction (mkAction ''d'' Draw [pt 10 10] 1000)
        (snd (addAction (mkAction ''clear1'' Clear [] 2000) (document [])))))
     = [mkAction ''d'' Draw [pt 10 10] 1000, mkAction ''clear1'' Clear [] 2000]"
  by (simp add: model_defs)

text \<open>
  C3 (the code differs from the claim). The claim: when \<open>a\<close> was appended by
  \<open>addAction\<close> before \<open>b\<close> and \<open>b\<close> is detected as conflicting with \<open>a\<close>, then
  \<open>b\<close> is stored with a timestamp strictly greater than that of \<open>a\<close>. The draw
  \<open>a\<close> at 2000 is added to the empty document; a snapshot whose list is \<open>a\<close>
  followed by a draw \<open>e\<close> at 1000 is restored, and the list is installed in that
  order; then the draw \<open>b\<close> at 900 is added, all three at the point (10, 10). Both
  \<open>a\<close> and \<open>e\<close> are detected as conflicts of \<open>b\<close>, the last of them, \<open>e\<close>,
  decides, and \<open>b\<close> is stored at 1001, before \<open>a\<close>.
\<close>

theorem addAction_after_unsorted_restore_stores_before_conflict:
  "storedAction (mkAction ''a'' Draw [pt 10 10] 2000) (document [])
     = mkAction ''a'' Draw [pt 10 10] 2000
   \<and> actions (run [AddAction (mkAction ''a'' Draw [pt 10 10] 2000)] (document []))
     = [mkAction ''a'' Draw [pt 10 10] 2000]
   \<and> actions (run [AddAction (mkAction ''a'' Draw [pt 10 10] 2000),
          RestoreFromSnapshot
            \<lparr>state_s = document [mkAction ''a'' Draw [pt 10 10] 2000,
                                 mkAction ''e'' Draw [pt 10 10] 1000],
             timestamp_s = 2500\<rparr>] (document []))
     = [mkAction ''a'' Draw [pt 10 10] 2000, mkAction ''e'' Draw [pt 10 10] 1000]
   \<and> \<bar>timestamp (mkAction ''a'' Draw [pt 10 10] 2000)
        - timestamp (mkAction ''b'' Draw [pt 10 10] 900)\<bar> < 5000
   \<and> near (pt 10 10) (pt 10 10)
   \<and> findConflicts (run [AddAction (mkAction ''a'' Draw [pt 10 10] 2000),
          RestoreFromSnapshot
            \<lparr>state_s = document [mkAction ''a'' Draw [pt 10 10] 2000,
                                 mkAction ''e'' Draw [pt 10 10] 1000],
             timestamp_s = 2500\<rparr>] (document []))
        (mkAction ''b'' Draw [pt 10 10] 900)
     = [mkAction ''a'' Draw [pt 10 10] 2000, mkAction ''e'' Draw [pt 10 10] 1000]
   \<and> timestamp (storedAction (mkAction ''b'' Draw [pt 10 10] 900)
        (run [AddAction (mkAction ''a'' Draw [pt 10 10] 2000),
          RestoreFromSnapshot
            \<lparr>state_s = document [mkAction ''a'' Draw [pt 10 10] 2000,
                                 mkAction ''e'' Draw [pt 10 10] 1000],
             timestamp_s = 2500\<rparr>] (document []))) = 1001
   \<and> timestamp (storedAction (mkAction ''b'' Draw [pt 10 10] 900)
        (run [AddAction (mkAction ''a'' Draw [pt 10 10] 2000),
          RestoreFromSnapshot
            \<lparr>state_s = document [mkAction ''a'' Draw [pt 10 10] 2000,
                                 mkAction ''e'' Draw [pt 10 10] 1000],
             timestamp_s = 2500\<rparr>] (document [])))
       < timestamp (mkAction ''a'' Draw [pt 10 10] 2000)
   \<and> actions (run [AddAction (mkAction ''a'' Draw [pt 10 10] 2000),
          RestoreFromSnapshot
            \<lparr>state_s = document [mkAction ''a'' Draw [pt 10 10] 2000,
                                 mkAction ''e'' Draw [pt 10 10] 1000],
             timestamp_s = 2500\<rparr>,
          AddAction (mkAction ''b'' Draw [pt 10 10] 900)] (document []))
     = [mkAction ''e'' Draw [pt 10 10] 1000, mkAction ''b'' Draw [pt 10 10] 1001,
        mkAction ''a'' Draw [pt 10 10] 2000]"
  by (simp add: model_defs restoreFromSnapshot_def)

text \<open>
  C4 (the code differs from the claim on a store that is not sorted). The claim: with
  a Clear present, \<open>optimizeActions\<close> keeps exactly the latest Clear and the non-Clear
  operations with a strictly greater timestamp. The source's comment says the same and
  its \<open>latestClear\<close> is the last Clear of the list, which is the latest only on a
  sorted list. On the list clear at 3000, draw at 2500, clear at 1000 (as a
  constructor argument or a restored snapshot may hold it) the Clear at 1000 is kept,
  the Clear at 3000 is dropped, and the draw at 2500, earlier than the latest Clear,
  survives; the claim's result is the Clear at 3000 alone.
\<close>

theorem optimizeActions_unsorted_store_keeps_last_clear:
  "actions (optimizeActions (document
       [mkAction ''clear2'' Clear [] 3000, mkAction ''d'' Draw [pt 10 10] 2500,
        mkAction ''clear1'' Clear [] 1000]))
     = [mkAction ''clear1'' Clear [] 1000, mkAction ''d'' Draw [pt 10 10] 2500]
   \<and> timestamp (mkAction ''clear1'' Clear [] 1000) < timestamp (mkAction ''clear2'' Clear [] 3000)
   \<and> timestamp (mkAction ''d'' Draw [pt 10 10] 2500) < timestamp (mkAction ''clear2'' Clear [] 3000)
   \<and> filter (\<lambda>a. timestamp (mkAction ''clear2'' Clear [] 3000) < timestamp a)
        (actions (document
          [mkAction ''clear2'' Clear [] 3000, mkAction ''d'' Draw [pt 10 10] 2500,
           mkAction ''clear1'' Clear [] 1000])) = []"
  by (simp add: optimizeActions_def optimizedList_def document_def mkAction_def)

text \<open>
  C5. \<open>mergeActions\<close> replaces the list by the concatenation of the current and the
  incoming operations, deduplicated by id keeping the first occurrence, sorted
  ascending by timestamp. From the incoming operations only those whose id is not in
  the store survive, so the store's copy wins; ids are unique afterwards and none is
  lost; every operation of the result is an operation of the store or of the incoming
  list as it was (no timestamp is resolved); \<open>lastModified\<close> becomes the current
  time; merging \<open>[a, a]\<close> into an empty list leaves exactly \<open>[a]\<close>.
\<close>

theorem mergeActions_dedup_sorted:
  "actions (mergeActions now incoming s)
     = sortByTimestamp (keepFirstById {} (actions s @ incoming))
   \<and> keepFirstById {} (actions s @ incoming)
     = keepFirstById {} (actions s) @ keepFirstById (id_a ` set (actions s)) incoming
   \<and> sortedByTimestamp (actions (mergeActions now incoming s))
   \<and> distinct (map id_a (actions (mergeActions now incoming s)))
   \<and> id_a ` set (actions (mergeActions now incoming s)) = id_a ` (set (actions s) \<union> set incoming)
   \<and> set (actions (mergeActions now incoming s)) \<subseteq> set (actions s) \<union> set incoming
   \<and> (\<forall>e\<in>set (actions (mergeActions now incoming s)).
         e \<in> set (actions s) \<or> id_a e \<notin> id_a ` set (actions s))
   \<and> lastModified (mergeActions now incoming s) = now
   \<and> actions (mergeActions now [a, a] (s\<lparr>actions := []\<rparr>)) = [a]"
proof -
  let ?kept = "keepFirstById {} (actions s @ incoming)"
  have acts: "actions (mergeActions now incoming s) = sortByTimestamp ?kept"
    by (simp add: mergeActions_def mergedList_keepFirst)
  have split: "?kept = keepFirstById {} (actions s) @ keepFirstById (id_a ` set (actions s)) incoming"
    by (simp add: keepFirstById_append)
  have sorted: "sortedByTimestamp (actions (mergeActions now incoming s))"
    by (simp add: acts sortedByTimestamp_sort)
  have dist: "distinct (map id_a (actions (mergeActions now incoming s)))"
    by (simp add: acts distinct_ids_sort keepFirstById_distinct)
  have ids: "id_a ` set (actions (mergeActions now incoming s))
      = id_a ` (set (actions s) \<union> set incoming)"
    by (simp add: acts set_sortByTimestamp keepFirstById_ids)
  have sub: "set (actions (mergeActions now incoming s)) \<subseteq> set (actions s) \<union> set incoming"
    using keepFirstById_subset [of "{}" "actions s @ incoming"]
    by (simp add: acts set_sortByTimestamp)
  have wins: "e \<in> set (actions s) \<or> id_a e \<notin> id_a ` set (actions s)"
    if "e \<in> set (actions (mergeActions now incoming s))" for e
  proof -
    from that have "e \<in> set (keepFirstById {} (actions s))
        \<or> e \<in> set (keepFirstById (id_a ` set (actions s)) incoming)"
      by (simp add: acts set_sortByTimestamp split)
    then show ?thesis
    proof
      assume "e \<in> set (keepFirstById {} (actions s))"
      then show ?thesis using keepFirstById_subset by blast
    next
      assume "e \<in> set (keepFirstById (id_a ` set (actions s)) incoming)"
      then have "id_a e \<in> id_a ` set incoming - id_a ` set (actions s)"
        using keepFirstById_ids [of "id_a ` set (actions s)" incoming] by blast
      then show ?thesis by blast
    qed
  qed
  have lm: "lastModified (mergeActions now incoming s) = now"
    by (simp add: mergeActions_def)
  have twice: "actions (mergeActions now [a, a] (s\<lparr>actions := []\<rparr>)) = [a]"
    by (simp add: mergeActions_def mergedList_keepFirst sortByTimestamp_def)
  from acts split sorted dist ids sub wins lm twice show ?thesis by blast
qed

text \<open>
  A store holding a draw \<open>a\<close> at 1000 near (10, 10); incoming an erase at 900 near
  (12, 12), which \<open>addAction\<close> would move to 1001, and another operation with the id
  of \<open>a\<close>. The erase keeps 900 and the store's \<open>a\<close> wins.
\<close>

theorem mergeActions_dedup_sorted_witness:
  "mkAction ''e'' Erase [pt 12 12] 900
     \<in> set (actions (mergeActions 5000
          [mkAction ''e'' Erase [pt 12 12] 900, mkAction ''a'' Erase [pt 500 500] 700]
          (document [mkAction ''a'' Draw [pt 10 10] 1000])))
   \<and> id_a (mkAction ''e'' Erase [pt 12 12] 900)
        \<notin> id_a ` set (actions (document [mkAction ''a'' Draw [pt 10 10] 1000]))
   \<and> actions (mergeActions 5000
          [mkAction ''e'' Erase [pt 12 12] 900, mkAction ''a'' Erase [pt 500 500] 700]
          (document [mkAction ''a'' Draw [pt 10 10] 1000]))
      = [mkAction ''e'' Erase [pt 12 12] 900, mkAction ''a'' Draw [pt 10 10] 1000]
   \<and> lastModified (mergeActions 5000
          [mkAction ''e'' Erase [pt 12 12] 900, mkAction ''a'' Erase [pt 500 500] 700]
          (document [mkAction ''a'' Draw [pt 10 10] 1000])) = 5000
   \<and> actions (mergeActions 5000
          [mkAction ''a'' Draw [pt 10 10] 1000, mkAction ''a'' Draw [pt 10 10] 1000]
          (document [])) = [mkAction ''a'' Draw [pt 10 10] 1000]"
proof -
  let ?a = "mkAction ''a'' Draw [pt 10 10] 1000"
  let ?e = "mkAction ''e'' Erase [pt 12 12] 900"
  let ?inc = "[?e, mkAction ''a'' Erase [pt 500 500] 700]"
  let ?s = "document [?a]"
  note inst = mergeActions_dedup_sorted [of 5000 ?inc ?s]
  have kept: "sortByTimestamp (keepFirstById {} (actions ?s @ ?inc)) = [?e, ?a]"
    by (simp add: document_def mkAction_def sortByTimestamp_def)
  from inst have "actions (mergeActions 5000 ?inc ?s)
      = sortByTimestamp (keepFirstById {} (actions ?s @ ?inc))"
    by (rule conjunct1)
  then have acts: "actions (mergeActions 5000 ?inc ?s) = [?e, ?a]"
    by (simp only: kept)
  have mem: "?e \<in> set (actions (mergeActions 5000 ?inc ?s))"
    unfolding acts by simp
  from inst mem have "?e \<in> set (actions ?s) \<or> id_a ?e \<notin> id_a ` set (actions ?s)"
    by blast
  moreover have "?e \<notin> set (actions ?s)"
    by (simp add: document_def mkAction_def)
  ultimately have fresh: "id_a ?e \<notin> id_a ` set (actions ?s)" by blast
  from inst have lm: "lastModified (mergeActions 5000 ?inc ?s) = 5000" by blast
  have "actions (mergeActions 5000 [?a, ?a] ((document [])\<lparr>actions := []\<rparr>)) = [?a]"
    using mergeActions_dedup_sorted [of 5000 "[?a, ?a]" "document []" ?a] by blast
  then have twice: "actions (mergeActions 5000 [?a, ?a] (document [])) = [?a]"
    by (simp add: document_def)
  from mem fresh acts lm twice show ?thesis by blast
qed

text \<open>
  C6 (the claim as stated fails). \<open>applyAction\<close> sets \<open>lastModified\<close> to the
  timestamp of the operation it appends. A draw at 1000 near (10, 10) is added, then a
  draw at 500 near (1000, 1000), which conflicts with nothing: \<open>lastModified\<close> is 500
  while the store holds the operation with timestamp 1000.
\<close>

theorem lastModified_below_earlier_operation_counterexample:
  "mkAction ''a'' Draw [pt 10 10] 1000
     \<in> set (actions (run [AddAction (mkAction ''a'' Draw [pt 10 10] 1000),
                           AddAction (mkAction ''b'' Draw [pt 1000 1000] 500)] (document [])))
   \<and> lastModified (run [AddAction (mkAction ''a'' Draw [pt 10 10] 1000),
                        AddAction (mkAction ''b'' Draw [pt 1000 1000] 500)] (document [])) = 500
   \<and> lastModified (run [AddAction (mkAction ''a'' Draw [pt 10 10] 1000),
                        AddAction (mkAction ''b'' Draw [pt 1000 1000] 500)] (document []))
       < timestamp (mkAction ''a'' Draw [pt 10 10] 1000)"
  by (simp add: model_defs)

text \<open>
  C6 as amended. After \<open>addAction\<close>, \<open>lastModified\<close> equals the timestamp under
  which the operation just appended was stored, which is at least the candidate's own
  timestamp; after \<open>mergeActions\<close> it is the clock value of the call; and
  \<open>optimizeActions\<close> leaves it unchanged.
\<close>

theorem lastModified_after_each_call:
  "lastModified (snd (addAction a s)) = timestamp (storedAction a s)
   \<and> timestamp a \<le> lastModified (snd (addAction a s))
   \<and> lastModified (mergeActions now incoming s) = now
   \<and> lastModified (optimizeActions s) = lastModified s"
  by (simp add: addAction_lastModified storedAction_ge mergeActions_def optimizeActions_def)

text \<open>
  C7 (the claim as stated fails). \<open>restoreFromSnapshot\<close> installs the snapshot's
  document as it is: from the sorted empty document, restoring a snapshot whose list is
  2000, 1000 leaves an unsorted list.
\<close>

theorem restore_unsorted_snapshot_counterexample:
  "sortedByTimestamp (actions (document []))
   \<and> \<not> sortedByTimestamp (actions (restoreFromSnapshot
         \<lparr>state_s = document [mkAction ''a'' Draw [pt 10 10] 2000,
                               mkAction ''b'' Draw [pt 10 10] 1000],
          timestamp_s = 3000\<rparr> (document [])))"
  by (simp add: restoreFromSnapshot_def document_def mkAction_def sortedByTimestamp_def)

text \<open>
  C7 as amended. After \<open>addAction\<close> and after \<open>mergeActions\<close> the operation list is
  sorted ascending by timestamp, from any document; after \<open>optimizeActions\<close> it is
  sorted if it was sorted before the call; after \<open>restoreFromSnapshot\<close> it is sorted
  exactly when the snapshot's operation list is sorted, as the list of a snapshot made
  by \<open>createSnapshot\<close> from a sorted document is.
\<close>

theorem mutating_calls_keep_sorted:
  "sortedByTimestamp (actions (snd (addAction a s)))
   \<and> sortedByTimestamp (actions (mergeActions now incoming s))
   \<and> (sortedByTimestamp (actions s) \<longrightarrow> sortedByTimestamp (actions (optimizeActions s)))
   \<and> (sortedByTimestamp (actions (restoreFromSnapshot snapshot s))
        \<longleftrightarrow> sortedByTimestamp (actions (state_s snapshot)))
   \<and> (sortedByTimestamp (actions s) \<longrightarrow>
        sortedByTimestamp (actions (restoreFromSnapshot (createSnapshot now s) s')))"
  by (simp add: addAction_sorted mergeActions_def mergedList_sorted optimizeActions_def
      optimizedList_sorted restoreFromSnapshot_def createSnapshot_def)

text \<open>A sorted document with a Clear at 1000 and a draw at 2000.\<close>

theorem mutating_calls_keep_sorted_witness:
  "sortedByTimestamp (actions (document [mkAction ''c'' Clear [] 1000, mkAction ''d'' Draw [pt 10 10] 2000]))
   \<and> actions (optimizeActions (document [mkAction ''c'' Clear [] 1000, mkAction ''d'' Draw [pt 10 10] 2000]))
      = [mkAction ''c'' Clear [] 1000, mkAction ''d'' Draw [pt 10 10] 2000]
   \<and> sortedByTimestamp (actions (optimizeActions
        (document [mkAction ''c'' Clear [] 1000, mkAction ''d'' Draw [pt 10 10] 2000])))
   \<and> sortedByTimestamp (actions (restoreFromSnapshot
        (createSnapshot 3000 (document [mkAction ''c'' Clear [] 1000, mkAction ''d'' Draw [pt 10 10] 2000]))
        (document [])))"
proof -
  let ?s = "document [mkAction ''c'' Clear [] 1000, mkAction ''d'' Draw [pt 10 10] 2000]"
  have h: "sortedByTimestamp (actions ?s)"
    by (simp add: document_def mkAction_def sortedByTimestamp_def)
  have acts: "actions (optimizeActions ?s) =
      [mkAction ''c'' Clear [] 1000, mkAction ''d'' Draw [pt 10 10] 2000]"
    by (simp add: optimizeActions_def optimizedList_def document_def mkAction_def)
  from mutating_calls_keep_sorted [of _ ?s _ _ _ "document []"] h acts
  show ?thesis by blast
qed

text \<open>
  C8 (the claim as stated fails). The first test of the repository: an operation added
  to an empty document. The result is \<open>{ success: true, conflict: false }\<close>, with no
  \<open>resolvedAction\<close>.
\<close>

theorem addAction_no_conflict_no_resolvedAction_counterexample:
  "success (fst (addAction (mkAction ''action1'' Draw [pt 10 10, pt 20 20] 1000) (document []))) = True
   \<and> conflict (fst (addAction (mkAction ''action1'' Draw [pt 10 10, pt 20 20] 1000) (document [])))
       = Some False
   \<and> resolvedAction (fst (addAction (mkAction ''action1'' Draw [pt 10 10, pt 20 20] 1000) (document [])))
       = None"
  by (simp add: model_defs)

text \<open>
  C8 as amended. For every operation \<open>addAction\<close> returns \<open>success = true\<close> and a
  boolean \<open>conflict\<close>, true exactly when \<open>findConflicts\<close> found an operation.
  \<open>resolvedAction\<close> is present exactly when \<open>conflict\<close> is true, and is then the
  operation as stored; when \<open>conflict\<close> is false the result has no
  \<open>resolvedAction\<close> and the candidate itself is stored.
\<close>

theorem addAction_result:
  "success (fst (addAction a s)) = True
   \<and> conflict (fst (addAction a s)) = Some (findConflicts s a \<noteq> [])
   \<and> resolvedAction (fst (addAction a s))
       = (if findConflicts s a = [] then None
          else Some (resolveConflicts a (findConflicts s a)))
   \<and> actions (snd (addAction a s))
       = sortByTimestamp (actions s @
           [if findConflicts s a = [] then a else resolveConflicts a (findConflicts s a)])"
  by (simp add: addAction_def applyAction_def Let_def)

text \<open>
  C9 (the code differs from the claim). The claim: a copy returned by \<open>getState\<close>,
  and a snapshot passed to \<open>restoreFromSnapshot\<close>, are not changed by later calls on
  the store. Both hold the manager's own array: the copy is made by
  \<open>{ ...this.whiteboardState }\<close>, and \<open>applyAction\<close> pushes to and sorts that array
  in place. With the manager's array at reference 0, empty, the array of the copy
  returned by \<open>getState\<close> reads \<open>[]\<close> before \<open>addAction a\<close> and \<open>[a]\<close> after it;
  with a snapshot whose array, at reference 1, holds \<open>d\<close>, restoring it and adding
  \<open>a\<close> makes the snapshot's array \<open>[d, a]\<close>.
\<close>

theorem getState_copy_shares_array:
  "actions (getState_h (object 0, store [[]])) = 0
   \<and> cells (store [[]]) (actions (getState_h (object 0, store [[]]))) = []
   \<and> cells (snd (snd (addAction_h (mkAction ''a'' Draw [pt 10 10] 1000) (object 0, store [[]]))))
        (actions (getState_h (object 0, store [[]])))
      = [mkAction ''a'' Draw [pt 10 10] 1000]
   \<and> cells (store [[], [mkAction ''d'' Draw [pt 500 500] 500]]) (actions (state_s \<lparr>state_s = object 1, timestamp_s = 0\<rparr>))
      = [mkAction ''d'' Draw [pt 500 500] 500]
   \<and> cells (snd (snd (addAction_h (mkAction ''a'' Draw [pt 10 10] 1000)
         (restoreFromSnapshot_h \<lparr>state_s = object 1, timestamp_s = 0\<rparr>
            (object 0, store [[], [mkAction ''d'' Draw [pt 500 500] 500]])))))
        (actions (state_s \<lparr>state_s = object 1, timestamp_s = 0\<rparr>))
      = [mkAction ''d'' Draw [pt 500 500] 500, mkAction ''a'' Draw [pt 10 10] 1000]"
  by (simp add: getState_h_def addAction_h_def applyAction_h_def restoreFromSnapshot_h_def
      object_def store_def model_defs)

text \<open>
  C10. An operation \<open>c\<close> whose point sequence is empty takes no part in conflict
  detection: as a candidate it has no conflicts, \<open>addAction\<close> returns
  \<open>conflict = false\<close> and stores \<open>c\<close> itself, timestamp unchanged, into the re-sorted
  list; as an existing operation of any store \<open>s'\<close> it is not among the conflicts of
  any candidate \<open>n\<close>.
\<close>

theorem empty_points_never_conflict:
  assumes "points c = []"
  shows "findConflicts s c = []
       \<and> conflict (fst (addAction c s)) = Some False
       \<and> storedAction c s = c
       \<and> actions (snd (addAction c s)) = sortByTimestamp (actions s @ [c])
       \<and> c \<notin> set (findConflicts s' n)"
proof -
  have none: "findConflicts s c = []"
    using assms
    by (simp add: findConflicts_def findConflictsLoop_filter hasSpatialConflict_empty
        filter_empty_conv)
  have "c \<notin> set (findConflicts s' n)"
    using assms by (simp add: findConflicts_iff)
  with none show ?thesis
    by (simp add: addAction_conflict_flag storedAction_eq addAction_actions)
qed

text \<open>A Clear without points at 1500 and a draw at 1000, each as candidate and as stored.\<close>

theorem empty_points_never_conflict_witness:
  "points (mkAction ''clear1'' Clear [] 1500) = []
   \<and> conflict (fst (addAction (mkAction ''clear1'' Clear [] 1500)
        (document [mkAction ''d'' Draw [pt 10 10] 1000]))) = Some False
   \<and> actions (snd (addAction (mkAction ''clear1'' Clear [] 1500)
        (document [mkAction ''d'' Draw [pt 10 10] 1000])))
     = [mkAction ''d'' Draw [pt 10 10] 1000, mkAction ''clear1'' Clear [] 1500]
   \<and> mkAction ''clear1'' Clear [] 1500
        \<notin> set (findConflicts (document [mkAction ''clear1'' Clear [] 1500])
               (mkAction ''d'' Draw [pt 10 10] 1000))"
proof -
  let ?c = "mkAction ''clear1'' Clear [] 1500"
  let ?s = "document [mkAction ''d'' Draw [pt 10 10] 1000]"
  have h: "points ?c = []" by (simp add: mkAction_def)
  have sorted: "sortByTimestamp (actions ?s @ [?c]) = [mkAction ''d'' Draw [pt 10 10] 1000, ?c]"
    by (simp add: model_defs)
  from empty_points_never_conflict [OF h, of ?s "document [?c]" "mkAction ''d'' Draw [pt 10 10] 1000"]
    h sorted
  show ?thesis by metis
qed

end
